theory Spec2Isabelle
  imports Main
begin

section \<open>ZingTouch state coordinator (src/core/state.js)\<close>

text \<open>
  A shallow embedding of the \<^verbatim>\<open>state\<close> object of \<^verbatim>\<open>src/core/state.js\<close>: the
  binding registry (\<^verbatim>\<open>addBinding\<close>) and the contact tracker (\<^verbatim>\<open>updateInputs\<close>,
  \<^verbatim>\<open>resetInputs\<close>, \<^verbatim>\<open>numActiveInputs\<close>). Mutation of the singleton is explicit
  state passing; a JavaScript \<^verbatim>\<open>TypeError\<close> is a value of a sum type.
\<close>

subsection \<open>JavaScript values reaching \<^verbatim>\<open>addBinding\<close>\<close>

type_synonym gref = nat
  \<comment> \<open>the address of a Gesture object: two bindings of one object share it\<close>

datatype jsval =
    JSUndefined
  | JSNull
  | JSBoolean bool
  | JSNumber int
  | JSString string
  | JSGesture gref      \<comment> \<open>an object whose prototype chain holds \<^verbatim>\<open>Gesture.prototype\<close>\<close>
  | JSObject nat        \<comment> \<open>any other object\<close>
  | JSFunction string   \<comment> \<open>a function, by name\<close>

fun typeof :: "jsval \<Rightarrow> string" where
  "typeof JSUndefined = ''undefined''"
| "typeof JSNull = ''object''"
| "typeof (JSBoolean b) = ''boolean''"
| "typeof (JSNumber n) = ''number''"
| "typeof (JSString s) = ''string''"
| "typeof (JSGesture r) = ''object''"
| "typeof (JSObject a) = ''object''"
| "typeof (JSFunction f) = ''function''"

fun instanceofGesture :: "jsval \<Rightarrow> bool" where
  "instanceofGesture (JSGesture r) = True"
| "instanceofGesture v = False"

subsection \<open>Gesture objects and bindings\<close>

text \<open>
  Modelled from the spec: the class \<^verbatim>\<open>Gesture\<close> (\<^verbatim>\<open>src/gestures/Gesture.js\<close> is not
  among the sources). Section 6: every gesture object "exposes getId()/setId(id)"; section
  4.4: "get/set a stable numeric id". The id is absent until it is set.
\<close>

record Gesture =
  gid :: "nat option"

type_synonym gestureHeap = "gref \<Rightarrow> Gesture"

definition setId :: "gestureHeap \<Rightarrow> gref \<Rightarrow> nat \<Rightarrow> gestureHeap" where
  "setId hp r n = hp(r := (hp r)\<lparr>gid := Some n\<rparr>)"

definition getId :: "gestureHeap \<Rightarrow> gref \<Rightarrow> nat option" where
  "getId hp r = gid (hp r)"

text \<open>
  Modelled from the spec: the class \<^verbatim>\<open>Binding\<close> (\<^verbatim>\<open>src/core/classes/Binding.js\<close> is
  not among the sources). Section 3 lists its fields; elements and handlers are opaque
  handles, and the gesture is a reference.
\<close>

type_synonym elem = nat
type_synonym hnd = nat

record Binding =
  element :: elem
  gesture :: gref
  handler :: hnd
  capture :: bool
  bindOnce :: bool

subsection \<open>Raw events and contact records\<close>

text \<open>
  A contact datum of a touch list; \<open>touch_identifier\<close> is its \<^verbatim>\<open>identifier\<close>
  property.
\<close>

datatype touch = Touch (touch_identifier: int)

record event =
  type :: string
  touches :: "touch list option"
  targetTouches :: "touch list option"
  changedTouches :: "touch list option"

text \<open>
  Modelled from the spec: \<^verbatim>\<open>util.normalizeEvent\<close> (\<^verbatim>\<open>src/core/util.js\<close> is not among
  the sources). Section 4.1: it "returns exactly one of the canonical phases {start, move,
  end, cancel}" or "an unrecognized sentinel". The spec gives no table of raw labels, so
  the operations below take the normalizer as a parameter; \<open>normalizeEvent\<close> is the
  instance on the DOM's touch and mouse event names, used where a concrete event is run.
\<close>

datatype phase = Start | Move | End | Cancel | Unrecognized

type_synonym normalizer = "string \<Rightarrow> phase"

definition normalizeEvent :: normalizer where
  "normalizeEvent t =
     (if t = ''mousedown'' \<or> t = ''touchstart'' then Start
      else if t = ''mousemove'' \<or> t = ''touchmove'' then Move
      else if t = ''mouseup'' \<or> t = ''touchend'' then End
      else if t = ''touchcancel'' then Cancel
      else Unrecognized)"

text \<open>
  Modelled from the spec: the class \<^verbatim>\<open>Input\<close> (\<^verbatim>\<open>src/core/classes/Input.js\<close> is not
  among the sources). Section 3, Contact Record: an identifier "stable for the lifetime of
  one physical contact" (section 4.2: "implicit identifier 0" on the single-pointer path),
  the current phase (read by \<^verbatim>\<open>numActiveInputs\<close> as \<^verbatim>\<open>current.type\<close>), and opaque
  position and history that \<^verbatim>\<open>update\<close> mutates: here the raw events the record was
  given, newest first.
\<close>

record Input =
  input_identifier :: int
  current_type :: phase
  history :: "(event \<times> int option) list"

definition newInput :: "normalizer \<Rightarrow> event \<Rightarrow> int option \<Rightarrow> Input" where
  "newInput norm ev i =
     \<lparr>input_identifier = (case i of None \<Rightarrow> 0 | Some k \<Rightarrow> k),
      current_type = norm (type ev),
      history = [(ev, i)]\<rparr>"

definition update :: "normalizer \<Rightarrow> Input \<Rightarrow> event \<Rightarrow> int option \<Rightarrow> Input" where
  "update norm inp ev i =
     inp\<lparr>current_type := norm (type ev), history := (ev, i) # history inp\<rparr>"

subsection \<open>The state object\<close>

text \<open>
  \<open>inputs\<close>, \<open>bindings\<close> and \<open>numGestures\<close> are the fields of the source's object.
  \<open>gestures\<close> is the store of the Gesture objects \<^verbatim>\<open>addBinding\<close> mutates through
  \<^verbatim>\<open>setId\<close>, and \<open>listeners\<close> records the \<^verbatim>\<open>element.addEventListener\<close> calls.
\<close>

record state =
  inputs :: "Input list"
  bindings :: "Binding list"
  numGestures :: nat
  gestures :: gestureHeap
  listeners :: "(elem \<times> nat option \<times> hnd \<times> bool) list"

definition initial :: state where
  "initial = \<lparr>inputs = [], bindings = [], numGestures = 0,
              gestures = (\<lambda>r. \<lparr>gid = None\<rparr>), listeners = []\<rparr>"

text \<open>
  \<^verbatim>\<open>registeredGestures\<close> is an object literal with six own properties, each a fresh
  gesture (addresses 0 to 5 of the store). \<^verbatim>\<open>this.registeredGestures[gesture]\<close> is a
  property read: a name that is not an own property is looked up on
  \<^verbatim>\<open>Object.prototype\<close>, whose properties are functions, and the accessor
  \<^verbatim>\<open>__proto__\<close>, which yields \<^verbatim>\<open>Object.prototype\<close> itself; only then is the
  result \<^verbatim>\<open>undefined\<close>.
\<close>

definition registeredGestures :: "(string \<times> gref) list" where
  "registeredGestures =
     [(''expand'', 0), (''pan'', 1), (''pinch'', 2),
      (''rotate'', 3), (''swipe'', 4), (''tap'', 5)]"

definition objectPrototypeFunctions :: "string list" where
  "objectPrototypeFunctions =
     [''constructor'', ''hasOwnProperty'', ''isPrototypeOf'', ''propertyIsEnumerable'',
      ''toLocaleString'', ''toString'', ''valueOf'',
      ''__defineGetter__'', ''__defineSetter__'', ''__lookupGetter__'', ''__lookupSetter__'']"

definition getRegistered :: "string \<Rightarrow> jsval" where
  "getRegistered name =
     (case map_of registeredGestures name of
        Some r \<Rightarrow> JSGesture r
      | None \<Rightarrow>
          if name \<in> set objectPrototypeFunctions then JSFunction name
          else if name = ''__proto__'' then JSObject 0
          else JSUndefined)"

subsection \<open>\<^verbatim>\<open>addBinding\<close>\<close>

datatype bindResult = RNull | RUndefined | RBinding Binding

text \<open>
  Lines 63 to 69: the second test of \<^verbatim>\<open>gesture instanceof Gesture\<close>; a function that
  ends without \<^verbatim>\<open>return\<close> yields \<^verbatim>\<open>undefined\<close>.
\<close>

definition bindResolved ::
  "state \<Rightarrow> elem \<Rightarrow> jsval \<Rightarrow> hnd \<Rightarrow> bool \<Rightarrow> bool \<Rightarrow> bindResult \<times> state" where
  "bindResolved st el g h cap once =
     (case g of
        JSGesture r \<Rightarrow>
          (let binding = \<lparr>element = el, gesture = r, handler = h,
                          capture = cap, bindOnce = once\<rparr>
           in (RBinding binding,
               st\<lparr>bindings := bindings st @ [binding],
                  listeners := listeners st @ [(el, getId (gestures st) r, h, cap)]\<rparr>))
      | _ \<Rightarrow> (RUndefined, st))"

definition addBinding ::
  "state \<Rightarrow> elem \<Rightarrow> jsval \<Rightarrow> hnd \<Rightarrow> bool \<Rightarrow> bool \<Rightarrow> bindResult \<times> state" where
  "addBinding st el g h cap once =
     (if typeof g = ''string'' then
        (let g' = (case g of JSString name \<Rightarrow> getRegistered name | _ \<Rightarrow> JSUndefined)
         in if typeof g' = ''undefined'' then (RNull, st)
            else bindResolved st el g' h cap once)
      else if \<not> instanceofGesture g then (RNull, st)
      else
        (case g of
           JSGesture r \<Rightarrow>
             bindResolved
               (st\<lparr>gestures := setId (gestures st) r (numGestures st),
                   numGestures := Suc (numGestures st)\<rparr>)
               el g h cap once
         | _ \<Rightarrow> (RNull, st)))"

subsection \<open>\<^verbatim>\<open>resetInputs\<close>, \<^verbatim>\<open>numActiveInputs\<close>, \<^verbatim>\<open>updateInputs\<close>\<close>

definition resetInputs :: "state \<Rightarrow> state" where
  "resetInputs st = st\<lparr>inputs := []\<rparr>"

definition numActiveInputs :: "state \<Rightarrow> nat" where
  "numActiveInputs st = length (filter (\<lambda>i. current_type i \<noteq> End) (inputs st))"

text \<open>
  \<^verbatim>\<open>this.inputs[id]\<close> reads the array at the index \<^verbatim>\<open>id\<close>. The array grows by
  \<^verbatim>\<open>push\<close> only and is emptied by \<^verbatim>\<open>resetInputs\<close>, so it has no holes: the read is
  an Input object (truthy) for \<open>0 \<le> id < length\<close> and \<^verbatim>\<open>undefined\<close> otherwise.
\<close>

definition inputAt :: "Input list \<Rightarrow> int \<Rightarrow> Input option" where
  "inputAt ins i = (if 0 \<le> i \<and> nat i < length ins then Some (ins ! nat i) else None)"

datatype jserror = TypeError

text \<open>
  The loop of lines 110 to 127 over the changed touches, in index order. The result is the
  value returned (\<open>False\<close> for the early \<^verbatim>\<open>return false\<close> after a reset, \<open>True\<close> when
  the loop ends) and the \<open>inputs\<close> array.
\<close>

fun changedLoop :: "normalizer \<Rightarrow> event \<Rightarrow> Input list \<Rightarrow> touch list \<Rightarrow> bool \<times> Input list" where
  "changedLoop norm ev ins [] = (True, ins)"
| "changedLoop norm ev ins (t # ts) =
     (let i = touch_identifier t in
      if norm (type ev) = Start then
        (case inputAt ins i of
           Some inp \<Rightarrow> (False, [])
         | None \<Rightarrow> changedLoop norm ev (ins @ [newInput norm ev (Some i)]) ts)
      else
        (case inputAt ins i of
           Some inp \<Rightarrow> changedLoop norm ev (ins[nat i := update norm inp ev (Some i)]) ts
         | None \<Rightarrow> changedLoop norm ev ins ts))"

text \<open>
  \<^verbatim>\<open>for (var index in event.changedTouches)\<close> has no iteration when the property is
  absent; \<^verbatim>\<open>event.targetTouches.length\<close> and \<^verbatim>\<open>this.inputs[0].update\<close> throw a
  \<^verbatim>\<open>TypeError\<close> when the object read is \<^verbatim>\<open>undefined\<close>.
\<close>

definition changed :: "event \<Rightarrow> touch list" where
  "changed ev = (case changedTouches ev of None \<Rightarrow> [] | Some cs \<Rightarrow> cs)"

definition updateInputs :: "normalizer \<Rightarrow> state \<Rightarrow> event \<Rightarrow> jserror + (bool \<times> state)" where
  "updateInputs norm st ev =
     (case touches ev of
        Some ts \<Rightarrow>
          (case targetTouches ev of
             None \<Rightarrow> Inl TypeError
           | Some tts \<Rightarrow>
               if length ts \<noteq> length tts then Inr (False, resetInputs st)
               else
                 (let (ok, ins) = changedLoop norm ev (inputs st) (changed ev)
                  in Inr (ok, st\<lparr>inputs := ins\<rparr>)))
      | None \<Rightarrow>
          if norm (type ev) = Start then
            Inr (True, st\<lparr>inputs := inputs st @ [newInput norm ev None]\<rparr>)
          else
            (case inputs st of
               [] \<Rightarrow> Inl TypeError
             | inp # rest \<Rightarrow> Inr (True, st\<lparr>inputs := update norm inp ev None # rest\<rparr>)))"

subsection \<open>Sequences of calls\<close>

text \<open>
  A caller's sequence of \<^verbatim>\<open>addBinding\<close> calls, and the Gesture objects passed in it, in
  call order.
\<close>

type_synonym bindCall = "elem \<times> jsval \<times> hnd \<times> bool \<times> bool"

fun bindAll :: "state \<Rightarrow> bindCall list \<Rightarrow> state" where
  "bindAll st [] = st"
| "bindAll st ((el, g, h, cap, once) # cs) =
     bindAll (snd (addBinding st el g h cap once)) cs"

fun gestureObjects :: "bindCall list \<Rightarrow> gref list" where
  "gestureObjects [] = []"
| "gestureObjects ((el, g, h, cap, once) # cs) =
     (case g of JSGesture r \<Rightarrow> r # gestureObjects cs | _ \<Rightarrow> gestureObjects cs)"

text \<open>
  A sequence of tracker calls. Both \<^verbatim>\<open>throw\<close> sites of \<^verbatim>\<open>updateInputs\<close> precede
  every write, so a call that throws leaves the state as it was.
\<close>

datatype call = UpdateInputs event | ResetInputs

fun run :: "normalizer \<Rightarrow> state \<Rightarrow> call list \<Rightarrow> state" where
  "run norm st [] = st"
| "run norm st (UpdateInputs ev # cs) =
     run norm (case updateInputs norm st ev of Inl e \<Rightarrow> st | Inr (ok, st') \<Rightarrow> st') cs"
| "run norm st (ResetInputs # cs) = run norm (resetInputs st) cs"

text \<open>
  Invariant I2 of the spec as a test on the \<open>inputs\<close> array: the records that are not
  in the \<open>end\<close> phase carry pairwise different identifiers.
\<close>

definition distinctActive :: "Input list \<Rightarrow> bool" where
  "distinctActive ins =
     distinct (map input_identifier (filter (\<lambda>i. current_type i \<noteq> End) ins))"

text \<open>
  A touch event from its type and the identifiers of its three touch lists, and a mouse
  event, which has no touch list.
\<close>

definition touchEvent :: "string \<Rightarrow> int list \<Rightarrow> int list \<Rightarrow> int list \<Rightarrow> event" where
  "touchEvent t all target chg =
     \<lparr>type = t, touches = Some (map Touch all), targetTouches = Some (map Touch target),
      changedTouches = Some (map Touch chg)\<rparr>"

definition mouseEvent :: "string \<Rightarrow> event" where
  "mouseEvent t = \<lparr>type = t, touches = None, targetTouches = None, changedTouches = None\<rparr>"

section \<open>The binding registry\<close>

subsection \<open>What one \<^verbatim>\<open>addBinding\<close> call does to the store and the counter\<close>

lemma addBinding_other_keeps:
  "\<not> instanceofGesture g \<Longrightarrow>
   gestures (snd (addBinding st el g h cap once)) = gestures st \<and>
   numGestures (snd (addBinding st el g h cap once)) = numGestures st"
  by (cases g) (auto simp: addBinding_def bindResolved_def Let_def split: jsval.splits)

lemma addBinding_object_store:
  "gestures (snd (addBinding st el (JSGesture r) h cap once)) =
     setId (gestures st) r (numGestures st) \<and>
   numGestures (snd (addBinding st el (JSGesture r) h cap once)) = Suc (numGestures st)"
  by (simp add: addBinding_def bindResolved_def Let_def)

text \<open>
  C1 as stated, refuted: the same Gesture object bound twice from the initial state has id
  0 after the first call and id 1 after the second.
\<close>

theorem rebinding_reassigns_id:
  "getId (gestures (snd (addBinding initial 1 (JSGesture 7) 2 False False))) 7 = Some 0 \<and>
   getId (gestures (snd (addBinding (snd (addBinding initial 1 (JSGesture 7) 2 False False))
                           1 (JSGesture 7) 2 False False))) 7 = Some 1"
  by (simp add: addBinding_def bindResolved_def getId_def setId_def Let_def initial_def)

text \<open>
  C1, amended: every \<^verbatim>\<open>addBinding\<close> call that passes a Gesture object creates a
  Binding, gives the object the current value of the counter as its id, whatever id it had
  before, and increments the counter. Line 60 has no test for an id assigned earlier.
\<close>

theorem addBinding_object_assigns:
  "fst (addBinding st el (JSGesture r) h cap once) =
     RBinding \<lparr>element = el, gesture = r, handler = h, capture = cap, bindOnce = once\<rparr> \<and>
   getId (gestures (snd (addBinding st el (JSGesture r) h cap once))) r = Some (numGestures st) \<and>
   numGestures (snd (addBinding st el (JSGesture r) h cap once)) = Suc (numGestures st)"
  by (simp add: addBinding_def bindResolved_def getId_def setId_def Let_def)

text \<open>
  C8 at a failing input: the name \<^verbatim>\<open>toString\<close> is none of the six registered names,
  yet the property read of line 53 finds \<^verbatim>\<open>Object.prototype.toString\<close>, which is not
  \<^verbatim>\<open>undefined\<close>, so line 55 is skipped; the function is no Gesture, and the call ends
  without a \<^verbatim>\<open>return\<close>: the result is \<^verbatim>\<open>undefined\<close>, not \<^verbatim>\<open>null\<close>. The state
  is unchanged.
\<close>

theorem addBinding_toString_undefined:
  "addBinding st el (JSString ''toString'') h cap once = (RUndefined, st)"
  by (simp add: addBinding_def bindResolved_def getRegistered_def registeredGestures_def
      objectPrototypeFunctions_def)

text \<open>
  What does hold for every string that is not a registered name: no Binding is returned
  and the state, the binding list with it, is unchanged.
\<close>

lemma addBinding_unknown_name:
  assumes "map_of registeredGestures name = None"
  shows "snd (addBinding st el (JSString name) h cap once) = st \<and>
         fst (addBinding st el (JSString name) h cap once) \<in> {RNull, RUndefined}"
  using assms by (simp add: addBinding_def bindResolved_def getRegistered_def Let_def)

text \<open>
  C10: for every gesture argument that is neither a string nor an instance of Gesture,
  \<^verbatim>\<open>addBinding\<close> returns \<^verbatim>\<open>null\<close> and leaves the whole state unchanged: the binding
  list and the gesture-id counter in particular.
\<close>

theorem addBinding_non_gesture:
  "typeof g \<noteq> ''string'' \<Longrightarrow> \<not> instanceofGesture g \<Longrightarrow>
   addBinding st el g h cap once = (RNull, st)"
  by (simp add: addBinding_def)

theorem addBinding_non_gesture_witness:
  "typeof (JSObject 7) \<noteq> ''string'' \<and> \<not> instanceofGesture (JSObject 7) \<and>
   typeof (JSNumber 3) \<noteq> ''string'' \<and> \<not> instanceofGesture (JSNumber 3) \<and>
   typeof JSNull \<noteq> ''string'' \<and> \<not> instanceofGesture JSNull \<and>
   addBinding initial 1 (JSObject 7) 2 False False = (RNull, initial) \<and>
   addBinding initial 1 (JSNumber 3) 2 False False = (RNull, initial) \<and>
   addBinding initial 1 JSNull 2 False False = (RNull, initial)"
  using addBinding_non_gesture [of "JSObject 7" initial 1 2 False False]
    addBinding_non_gesture [of "JSNumber 3" initial 1 2 False False]
    addBinding_non_gesture [of JSNull initial 1 2 False False]
  by simp

subsection \<open>Ids over a sequence of calls\<close>

lemma bindAll_numGestures:
  "numGestures (bindAll st cs) = numGestures st + length (gestureObjects cs)"
proof (induction cs arbitrary: st)
  case Nil
  then show ?case by simp
next
  case (Cons c cs)
  obtain el g h cap once where c: "c = (el, g, h, cap, once)" by (cases c) auto
  show ?case
  proof (cases "instanceofGesture g")
    case True
    then obtain r where "g = JSGesture r" by (cases g) auto
    then show ?thesis using Cons.IH c by (simp add: addBinding_object_store)
  next
    case False
    then have "gestureObjects (c # cs) = gestureObjects cs"
      using c by (cases g) auto
    then show ?thesis using Cons.IH c False by (simp add: addBinding_other_keeps)
  qed
qed

lemma bindAll_getId_other:
  "r \<notin> set (gestureObjects cs) \<Longrightarrow>
   getId (gestures (bindAll st cs)) r = getId (gestures st) r"
proof (induction cs arbitrary: st)
  case Nil
  then show ?case by simp
next
  case (Cons c cs)
  obtain el g h cap once where c: "c = (el, g, h, cap, once)" by (cases c) auto
  show ?case
  proof (cases "instanceofGesture g")
    case True
    then obtain r' where g: "g = JSGesture r'" by (cases g) auto
    with Cons.prems c have "r' \<noteq> r" "r \<notin> set (gestureObjects cs)" by auto
    then show ?thesis using Cons.IH c g
      by (simp add: addBinding_object_store getId_def setId_def)
  next
    case False
    then have "gestureObjects (c # cs) = gestureObjects cs"
      using c by (cases g) auto
    then show ?thesis using Cons.IH Cons.prems c False by (simp add: addBinding_other_keeps)
  qed
qed

lemma bindAll_ids:
  assumes "distinct (gestureObjects cs)"
  shows "map (getId (gestures (bindAll st cs))) (gestureObjects cs) =
           map Some [numGestures st ..< numGestures st + length (gestureObjects cs)]"
  using assms
proof (induction cs arbitrary: st)
  case Nil
  then show ?case by simp
next
  case (Cons c cs)
  obtain el g h cap once where c: "c = (el, g, h, cap, once)" by (cases c) auto
  let ?st = "snd (addBinding st el g h cap once)"
  show ?case
  proof (cases "instanceofGesture g")
    case True
    then obtain r where g: "g = JSGesture r" by (cases g) auto
    with Cons.prems c have fresh: "r \<notin> set (gestureObjects cs)"
      and d: "distinct (gestureObjects cs)"
      by auto
    have hd: "getId (gestures (bindAll ?st cs)) r = Some (numGestures st)"
      using bindAll_getId_other [OF fresh, of ?st] g
      by (simp add: addBinding_object_store getId_def setId_def)
    have tl: "map (getId (gestures (bindAll ?st cs))) (gestureObjects cs) =
                map Some [Suc (numGestures st) ..<
                          Suc (numGestures st) + length (gestureObjects cs)]"
      using Cons.IH [OF d, of ?st] g by (simp add: addBinding_object_store)
    have objs: "gestureObjects (c # cs) = r # gestureObjects cs"
      using c g by simp
    have "bindAll st (c # cs) = bindAll ?st cs"
      using c by simp
    then show ?thesis
      unfolding objs using hd tl by (simp add: upt_conv_Cons del: upt_Suc)
  next
    case False
    then have eq: "gestureObjects (c # cs) = gestureObjects cs"
      using c by (cases g) auto
    with Cons.prems have d: "distinct (gestureObjects cs)" by simp
    show ?thesis using Cons.IH [OF d, of ?st] c False eq
      by (simp add: addBinding_other_keeps)
  qed
qed

text \<open>
  C9: in any sequence of \<^verbatim>\<open>addBinding\<close> calls whose Gesture objects are pairwise
  distinct, the N objects end with the ids n, n+1, ..., n+N-1 in call order, n being the
  counter before the first call: N strictly increasing ids. The elements, handlers and
  flags of the calls are arbitrary, and calls by name or with other values may be
  interleaved.
\<close>

theorem bindAll_ids_increasing:
  assumes "distinct (gestureObjects cs)"
  shows "map (getId (gestures (bindAll st cs))) (gestureObjects cs) =
           map Some [numGestures st ..< numGestures st + length (gestureObjects cs)] \<and>
         sorted_wrt (<) (map (\<lambda>r. the (getId (gestures (bindAll st cs)) r)) (gestureObjects cs))"
proof -
  let ?ids = "map (getId (gestures (bindAll st cs))) (gestureObjects cs)"
  have ids: "?ids = map Some [numGestures st ..< numGestures st + length (gestureObjects cs)]"
    by (rule bindAll_ids [OF assms])
  have "map (\<lambda>r. the (getId (gestures (bindAll st cs)) r)) (gestureObjects cs) = map the ?ids"
    by simp
  also have "\<dots> = [numGestures st ..< numGestures st + length (gestureObjects cs)]"
    unfolding ids by (simp add: map_idI)
  finally show ?thesis using ids by (simp add: strict_sorted_iff del: upt_Suc)
qed

theorem bindAll_ids_increasing_witness:
  "distinct (gestureObjects
     [(1, JSGesture 10, 5, False, False), (1, JSString ''tap'', 6, False, False),
      (2, JSGesture 11, 5, True, False), (1, JSGesture 12, 7, False, True)]) \<and>
   map (getId (gestures (bindAll initial
     [(1, JSGesture 10, 5, False, False), (1, JSString ''tap'', 6, False, False),
      (2, JSGesture 11, 5, True, False), (1, JSGesture 12, 7, False, True)]))) [10, 11, 12] =
     [Some 0, Some 1, Some 2]"
  using bindAll_ids_increasing [of
     "[(1, JSGesture 10, 5, False, False), (1, JSString ''tap'', 6, False, False),
       (2, JSGesture 11, 5, True, False), (1, JSGesture 12, 7, False, True)]" initial]
  by (simp add: initial_def upt_rec)

section \<open>The contact tracker\<close>

text \<open>
  C7: when \<^verbatim>\<open>touches\<close> is present and its length differs from that of
  \<^verbatim>\<open>targetTouches\<close>, \<^verbatim>\<open>updateInputs\<close> returns \<^verbatim>\<open>false\<close> and its state is the old
  one with an empty \<open>inputs\<close> array, so the active-contact count is 0; neither the event
  type nor the changed touches are read.
\<close>

theorem updateInputs_target_mismatch:
  "touches ev = Some ts \<Longrightarrow> targetTouches ev = Some tts \<Longrightarrow> length ts \<noteq> length tts \<Longrightarrow>
   updateInputs norm st ev = Inr (False, resetInputs st) \<and>
   inputs (resetInputs st) = [] \<and> numActiveInputs (resetInputs st) = 0"
  by (simp add: updateInputs_def resetInputs_def numActiveInputs_def)

theorem updateInputs_target_mismatch_witness:
  "touches (touchEvent ''touchstart'' [0, 1] [0] [0, 1]) = Some [Touch 0, Touch 1] \<and>
   targetTouches (touchEvent ''touchstart'' [0, 1] [0] [0, 1]) = Some [Touch 0] \<and>
   length [Touch 0, Touch 1] \<noteq> length [Touch 0] \<and>
   inputs (run normalizeEvent initial
      [UpdateInputs (touchEvent ''touchstart'' [0] [0] [0])]) \<noteq> [] \<and>
   updateInputs normalizeEvent
     (run normalizeEvent initial [UpdateInputs (touchEvent ''touchstart'' [0] [0] [0])])
     (touchEvent ''touchstart'' [0, 1] [0] [0, 1]) = Inr (False, initial)"
  using updateInputs_target_mismatch [of "touchEvent ''touchstart'' [0, 1] [0] [0, 1]"
      "[Touch 0, Touch 1]" "[Touch 0]" normalizeEvent
      "run normalizeEvent initial [UpdateInputs (touchEvent ''touchstart'' [0] [0] [0])]"]
  by (simp add: touchEvent_def updateInputs_def changed_def inputAt_def normalizeEvent_def
      initial_def resetInputs_def)

text \<open>
  C2 at a failing input: a mouse move (no \<^verbatim>\<open>touches\<close>) before any contact record
  exists. Line 132 reads \<^verbatim>\<open>this.inputs[0].update\<close> on an empty array and throws.
\<close>

theorem updateInputs_mousemove_throws:
  "updateInputs normalizeEvent initial (mouseEvent ''mousemove'') = Inl TypeError"
  by (simp add: updateInputs_def normalizeEvent_def initial_def mouseEvent_def)

text \<open>
  The two throw sites are the only ones: with \<^verbatim>\<open>targetTouches\<close> present whenever
  \<^verbatim>\<open>touches\<close> is, and a start or an existing record when \<^verbatim>\<open>touches\<close> is absent,
  the call returns a boolean.
\<close>

lemma updateInputs_returns:
  assumes "touches ev \<noteq> None \<Longrightarrow> targetTouches ev \<noteq> None"
    and "touches ev = None \<Longrightarrow> norm (type ev) = Start \<or> inputs st \<noteq> []"
  shows "\<exists>ok st'. updateInputs norm st ev = Inr (ok, st')"
proof (cases "touches ev")
  case None
  with assms(2) show ?thesis
    by (cases "inputs st") (auto simp: updateInputs_def)
next
  case (Some ts)
  with assms(1) obtain tts where "targetTouches ev = Some tts" by auto
  with Some show ?thesis
    by (cases "changedLoop norm ev (inputs st) (changed ev)") (auto simp: updateInputs_def)
qed

subsection \<open>Identifiers and array indices\<close>

text \<open>
  C6 at a failing input: the touch with identifier 5 starts twice. The first start appends
  its record at index 0. At the second, line 114 reads \<^verbatim>\<open>this.inputs[5]\<close>, which is
  \<^verbatim>\<open>undefined\<close> in an array of length 1, so the record with identifier 5 in the
  \<open>start\<close> phase is not found: no reset, a second record with identifier 5 is appended
  and the call returns \<^verbatim>\<open>true\<close>.
\<close>

theorem duplicate_start_not_detected:
  "updateInputs normalizeEvent initial (touchEvent ''touchstart'' [5] [5] [5]) =
     Inr (True, initial\<lparr>inputs :=
       [newInput normalizeEvent (touchEvent ''touchstart'' [5] [5] [5]) (Some 5)]\<rparr>) \<and>
   updateInputs normalizeEvent
     (initial\<lparr>inputs :=
        [newInput normalizeEvent (touchEvent ''touchstart'' [5] [5] [5]) (Some 5)]\<rparr>)
     (touchEvent ''touchstart'' [5] [5] [5]) =
     Inr (True, initial\<lparr>inputs :=
       [newInput normalizeEvent (touchEvent ''touchstart'' [5] [5] [5]) (Some 5),
        newInput normalizeEvent (touchEvent ''touchstart'' [5] [5] [5]) (Some 5)]\<rparr>) \<and>
   map input_identifier
       [newInput normalizeEvent (touchEvent ''touchstart'' [5] [5] [5]) (Some 5),
        newInput normalizeEvent (touchEvent ''touchstart'' [5] [5] [5]) (Some 5)] = [5, 5] \<and>
   map current_type
       [newInput normalizeEvent (touchEvent ''touchstart'' [5] [5] [5]) (Some 5),
        newInput normalizeEvent (touchEvent ''touchstart'' [5] [5] [5]) (Some 5)] =
     [Start, Start]"
  by (simp add: touchEvent_def updateInputs_def changed_def inputAt_def normalizeEvent_def
      initial_def newInput_def)

text \<open>
  The start that line 114 does detect is the one whose identifier is an index of the
  array: then the records are cleared and the rest of the batch is not read.
\<close>

lemma start_at_index_resets:
  assumes "norm (type ev) = Start"
    and "touches ev = Some ts" and "targetTouches ev = Some tts" and "length ts = length tts"
    and "changed ev = t # rest"
    and "0 \<le> touch_identifier t" and "touch_identifier t < int (length (inputs st))"
  shows "updateInputs norm st ev = Inr (False, resetInputs st)"
proof -
  have "nat (touch_identifier t) < length (inputs st)"
    using assms(6,7) by linarith
  then show ?thesis
    using assms by (simp add: updateInputs_def inputAt_def resetInputs_def Let_def)
qed

text \<open>
  C4 at a failing input: from the empty tracker state, two start events for the touch with
  identifier 1 leave two records with identifier 1, both in the \<open>start\<close> phase.
\<close>

theorem shared_identifier_reachable:
  "\<not> distinctActive (inputs (run normalizeEvent initial
        [UpdateInputs (touchEvent ''touchstart'' [1] [1] [1]),
         UpdateInputs (touchEvent ''touchstart'' [1] [1] [1])]))"
  by (simp add: touchEvent_def updateInputs_def changed_def inputAt_def normalizeEvent_def
      initial_def newInput_def distinctActive_def)

subsection \<open>Events that are not a start\<close>

lemma inputAt_None_iff:
  "inputAt ins i = None \<longleftrightarrow> \<not> (0 \<le> i \<and> i < int (length ins))"
  by (auto simp: inputAt_def)

lemma changedLoop_orphans:
  "norm (type ev) \<noteq> Start \<Longrightarrow> \<forall>t \<in> set cs. inputAt ins (touch_identifier t) = None \<Longrightarrow>
   changedLoop norm ev ins cs = (True, ins)"
  by (induction cs) (simp_all add: Let_def)

text \<open>
  C5 at a failing input: after the start of the touch with identifier 5, a move arrives
  whose changed touch has identifier 0, with \<^verbatim>\<open>touches\<close> as long as
  \<^verbatim>\<open>targetTouches\<close>. No record has identifier 0, yet line 122 reads
  \<^verbatim>\<open>this.inputs[0]\<close>, the record of touch 5, and line 123 updates it: the call returns
  \<^verbatim>\<open>true\<close> and the record of touch 5 is in the \<open>move\<close> phase, so the state has
  changed.
\<close>

theorem orphan_move_rewrites_other_record:
  "normalizeEvent (type (touchEvent ''touchmove'' [0] [0] [0])) = Move \<and>
   map input_identifier (inputs (run normalizeEvent initial
      [UpdateInputs (touchEvent ''touchstart'' [5] [5] [5])])) = [5] \<and>
   map current_type (inputs (run normalizeEvent initial
      [UpdateInputs (touchEvent ''touchstart'' [5] [5] [5])])) = [Start] \<and>
   (case updateInputs normalizeEvent
          (run normalizeEvent initial [UpdateInputs (touchEvent ''touchstart'' [5] [5] [5])])
          (touchEvent ''touchmove'' [0] [0] [0]) of
      Inl e \<Rightarrow> False
    | Inr (ok, st') \<Rightarrow>
        ok \<and> map input_identifier (inputs st') = [5] \<and> map current_type (inputs st') = [Move] \<and>
        inputs st' \<noteq> inputs (run normalizeEvent initial
                [UpdateInputs (touchEvent ''touchstart'' [5] [5] [5])]))"
  by (simp add: touchEvent_def updateInputs_def changed_def inputAt_def normalizeEvent_def
      initial_def newInput_def update_def)

text \<open>
  The changed touches that a move or an end does ignore are those whose identifier is no
  index of the \<open>inputs\<close> array: with \<^verbatim>\<open>touches\<close> present and as long as
  \<^verbatim>\<open>targetTouches\<close>, the call then returns \<^verbatim>\<open>true\<close> and leaves the state as it
  was.
\<close>

lemma updateInputs_unindexed_ignored:
  assumes "norm (type ev) \<noteq> Start"
    and "touches ev = Some ts" and "targetTouches ev = Some tts" and "length ts = length tts"
    and "\<forall>t \<in> set (changed ev).
           \<not> (0 \<le> touch_identifier t \<and> touch_identifier t < int (length (inputs st)))"
  shows "updateInputs norm st ev = Inr (True, st)"
proof -
  from assms(5) have "\<forall>t \<in> set (changed ev). inputAt (inputs st) (touch_identifier t) = None"
    by (simp add: inputAt_None_iff)
  with assms(1) have "changedLoop norm ev (inputs st) (changed ev) = (True, inputs st)"
    by (rule changedLoop_orphans)
  with assms(2-4) show ?thesis by (simp add: updateInputs_def)
qed

lemma filter_update_ge:
  assumes "k < length xs" and "P y"
  shows "length (filter P xs) \<le> length (filter P (xs[k := y]))"
  using assms
proof (induction xs arbitrary: k)
  case Nil
  then show ?case by simp
next
  case (Cons x xs)
  show ?case
  proof (cases k)
    case 0
    then show ?thesis using Cons.prems by simp
  next
    case (Suc j)
    then show ?thesis using Cons.IH [of j] Cons.prems by simp
  qed
qed

lemma changedLoop_nonstart:
  assumes "norm (type ev) \<noteq> Start" and "norm (type ev) \<noteq> End"
  shows "fst (changedLoop norm ev ins cs) \<and>
         map input_identifier (snd (changedLoop norm ev ins cs)) = map input_identifier ins \<and>
         length (filter (\<lambda>i. current_type i \<noteq> End) ins) \<le>
           length (filter (\<lambda>i. current_type i \<noteq> End) (snd (changedLoop norm ev ins cs)))"
proof (induction cs arbitrary: ins)
  case Nil
  then show ?case by simp
next
  case (Cons t cs)
  show ?case
  proof (cases "inputAt ins (touch_identifier t)")
    case None
    then show ?thesis using Cons.IH [of ins] assms(1) by (simp add: Let_def)
  next
    case (Some inp)
    let ?k = "nat (touch_identifier t)"
    let ?ins = "ins[?k := update norm inp ev (Some (touch_identifier t))]"
    from Some have k: "?k < length ins" and inp: "inp = ins ! ?k"
      by (auto simp: inputAt_def split: if_splits)
    have ids: "map input_identifier ?ins = map input_identifier ins"
    proof -
      have "input_identifier (update norm inp ev (Some (touch_identifier t))) =
            map input_identifier ins ! ?k"
        using k inp by (simp add: update_def)
      then show ?thesis by (simp add: map_update)
    qed
    have act: "length (filter (\<lambda>i. current_type i \<noteq> End) ins) \<le>
               length (filter (\<lambda>i. current_type i \<noteq> End) ?ins)"
      using k assms(2) by (intro filter_update_ge) (simp_all add: update_def)
    have step: "changedLoop norm ev ins (t # cs) = changedLoop norm ev ?ins cs"
      using Some assms(1) by (simp add: Let_def)
    show ?thesis unfolding step using Cons.IH [of ?ins] ids act by auto
  qed
qed

text \<open>
  C3 as stated, refuted: after the start of touch 0, a cancel event for that touch (no
  touch left in \<^verbatim>\<open>touches\<close> and \<^verbatim>\<open>targetTouches\<close>) returns \<^verbatim>\<open>true\<close>, keeps
  the record, and \<^verbatim>\<open>numActiveInputs\<close> is 1 afterwards.
\<close>

theorem cancel_keeps_contacts:
  "normalizeEvent (type (touchEvent ''touchcancel'' [] [] [0])) = Cancel \<and>
   (case updateInputs normalizeEvent
          (run normalizeEvent initial [UpdateInputs (touchEvent ''touchstart'' [0] [0] [0])])
          (touchEvent ''touchcancel'' [] [] [0]) of
      Inl e \<Rightarrow> False
    | Inr (ok, st') \<Rightarrow> ok \<and> length (inputs st') = 1 \<and> numActiveInputs st' = 1)"
  by (simp add: touchEvent_def updateInputs_def changed_def inputAt_def normalizeEvent_def
      initial_def newInput_def update_def numActiveInputs_def)

text \<open>
  C3, amended: \<^verbatim>\<open>updateInputs\<close> has no branch for the cancel phase; an event whose type
  normalizes to cancel takes the branches of every phase that is not a start. When
  \<^verbatim>\<open>touches\<close> is present and as long as \<^verbatim>\<open>targetTouches\<close>, or \<^verbatim>\<open>touches\<close> is
  absent and a record exists, the call returns \<^verbatim>\<open>true\<close>, every record stays (same
  identifiers in the same order) and \<^verbatim>\<open>numActiveInputs\<close> does not decrease.
\<close>

theorem updateInputs_cancel_no_clear:
  assumes "norm (type ev) = Cancel"
    and "(\<exists>ts tts. touches ev = Some ts \<and> targetTouches ev = Some tts \<and> length ts = length tts)
         \<or> (touches ev = None \<and> inputs st \<noteq> [])"
  shows "\<exists>st'. updateInputs norm st ev = Inr (True, st') \<and>
           map input_identifier (inputs st') = map input_identifier (inputs st) \<and>
           numActiveInputs st \<le> numActiveInputs st'"
  using assms(2)
proof
  assume "\<exists>ts tts. touches ev = Some ts \<and> targetTouches ev = Some tts \<and> length ts = length tts"
  then obtain ts tts where t: "touches ev = Some ts" "targetTouches ev = Some tts"
      "length ts = length tts" by blast
  have "norm (type ev) \<noteq> Start" "norm (type ev) \<noteq> End" using assms(1) by simp_all
  with changedLoop_nonstart [of norm ev "inputs st" "changed ev"] t
  show ?thesis
    by (cases "changedLoop norm ev (inputs st) (changed ev)")
       (simp add: updateInputs_def numActiveInputs_def)
next
  assume a: "touches ev = None \<and> inputs st \<noteq> []"
  then obtain inp rest where "inputs st = inp # rest" by (cases "inputs st") auto
  with a assms(1) show ?thesis
    by (simp add: updateInputs_def numActiveInputs_def update_def)
qed

theorem updateInputs_cancel_no_clear_witness:
  "normalizeEvent (type (touchEvent ''touchcancel'' [] [] [0])) = Cancel \<and>
   touches (touchEvent ''touchcancel'' [] [] [0]) = Some [] \<and>
   targetTouches (touchEvent ''touchcancel'' [] [] [0]) = Some [] \<and>
   (\<exists>st'. updateInputs normalizeEvent
            (run normalizeEvent initial [UpdateInputs (touchEvent ''touchstart'' [0] [0] [0])])
            (touchEvent ''touchcancel'' [] [] [0]) = Inr (True, st') \<and>
          map input_identifier (inputs st') = [0] \<and>
          1 \<le> numActiveInputs st')"
  using updateInputs_cancel_no_clear [of normalizeEvent "touchEvent ''touchcancel'' [] [] [0]"
      "run normalizeEvent initial [UpdateInputs (touchEvent ''touchstart'' [0] [0] [0])]"]
  by (simp add: touchEvent_def updateInputs_def changed_def inputAt_def normalizeEvent_def
      initial_def newInput_def update_def numActiveInputs_def)

end
